theory Spec2Isabelle
  imports Main "HOL-Library.Word"
begin

section \<open>JavaScript strings\<close>

text \<open>
  A JavaScript string is a sequence of UTF-16 code units; \<open>length\<close>, indexing,
  \<open>indexOf\<close>, \<open>slice\<close> and the regular expressions of this program (none has the
  \<open>u\<close> flag) all count code units. Numbers that the program uses as offsets are
  integers, modelled as \<open>int\<close>; loop counters and lengths are \<open>nat\<close>.
\<close>

type_synonym code_unit = "16 word"
type_synonym jsstring = "code_unit list"

definition js :: "string \<Rightarrow> jsstring" where
  "js s = map of_char s"

definition SP :: code_unit where "SP = 0x20"
definition TAB :: code_unit where "TAB = 0x09"
definition LF :: code_unit where "LF = 0x0A"
definition CR :: code_unit where "CR = 0x0D"

text \<open>\<open>s[i]\<close>: the code unit at index \<open>i\<close>, \<open>undefined\<close> (here \<open>None\<close>) out of range.\<close>

definition char_at :: "jsstring \<Rightarrow> int \<Rightarrow> code_unit option" where
  "char_at s i = (if 0 \<le> i \<and> i < int (length s) then Some (s ! nat i) else None)"

text \<open>\<open>s.slice(a, b)\<close> and \<open>s.slice(a)\<close>: negative arguments count from the end.\<close>

definition rel_index :: "nat \<Rightarrow> int \<Rightarrow> nat" where
  "rel_index len a = (if a < 0 then nat (max (int len + a) 0) else min (nat a) len)"

definition slice :: "jsstring \<Rightarrow> int \<Rightarrow> int \<Rightarrow> jsstring" where
  "slice s a b =
     (let from = rel_index (length s) a; to = rel_index (length s) b
      in take (to - from) (drop from s))"

definition slice_from :: "jsstring \<Rightarrow> int \<Rightarrow> jsstring" where
  "slice_from s a = drop (rel_index (length s) a) s"

text \<open>\<open>s.substring(a, b)\<close>: arguments are clamped to the string and swapped if needed.\<close>

definition substring :: "jsstring \<Rightarrow> int \<Rightarrow> int \<Rightarrow> jsstring" where
  "substring s a b =
     (let x = nat (min (max a 0) (int (length s)));
          y = nat (min (max b 0) (int (length s)))
      in take (max x y - min x y) (drop (min x y) s))"

text \<open>
  \<open>s.indexOf(c, pos)\<close> for a one-unit search string: the least index \<open>k\<close> with
  \<open>clamp pos \<le> k\<close> and \<open>s[k] = c\<close>, or \<open>-1\<close>.
\<close>

fun scan_up :: "code_unit \<Rightarrow> jsstring \<Rightarrow> nat \<Rightarrow> int" where
  "scan_up c [] k = - 1"
| "scan_up c (x # xs) k = (if x = c then int k else scan_up c xs (Suc k))"

definition indexOf :: "jsstring \<Rightarrow> code_unit \<Rightarrow> int \<Rightarrow> int" where
  "indexOf s c pos =
     (let start = nat (min (max pos 0) (int (length s)))
      in scan_up c (drop start s) start)"

text \<open>
  \<open>s.lastIndexOf(c, pos)\<close>: the greatest index \<open>k\<close> with \<open>k \<le> clamp pos\<close> and
  \<open>s[k] = c\<close>, or \<open>-1\<close>; an omitted position is \<open>+\<infinity>\<close>.
\<close>

fun scan_down :: "code_unit \<Rightarrow> jsstring \<Rightarrow> nat \<Rightarrow> int" where
  "scan_down c s 0 = (if 0 < length s \<and> s ! 0 = c then 0 else - 1)"
| "scan_down c s (Suc k) =
     (if Suc k < length s \<and> s ! Suc k = c then int (Suc k) else scan_down c s k)"

definition lastIndexOf :: "jsstring \<Rightarrow> code_unit \<Rightarrow> int option \<Rightarrow> int" where
  "lastIndexOf s c pos =
     (let start = (case pos of None \<Rightarrow> length s
                   | Some p \<Rightarrow> nat (min (max p 0) (int (length s))))
      in scan_down c s start)"

section \<open>Text alignment utilities\<close>

definition getPreviousSpace :: "jsstring \<Rightarrow> int option \<Rightarrow> int" where
  "getPreviousSpace text offset =
     (if text = [] then 0
      else let index = lastIndexOf text SP offset
           in if index < 0 then 0 else index + 1)"

definition getNextSpace :: "jsstring \<Rightarrow> int \<Rightarrow> int" where
  "getNextSpace text offset =
     (if text = [] then 0
      else let index = indexOf text SP offset
           in if index < 0 then int (length text) else index)"

section \<open>Error highlighter: the key-up scan\<close>

text \<open>
  The loop of \<open>onKeyUp\<close> keeps \<open>errors\<close>, an array of arrays, and \<open>error\<close>, which is
  either \<open>undefined\<close> or a reference to one of the arrays of \<open>errors\<close>: the reference
  is the position of that array in \<open>errors\<close>, and \<open>error.push(x)\<close> appends to the
  array stored there.
\<close>

record scan_state =
  error :: "nat option"
  errors :: "nat list list"

definition scan_init :: scan_state where
  "scan_init = \<lparr>error = None, errors = []\<rparr>"

definition push_ref :: "nat list list \<Rightarrow> nat \<Rightarrow> nat \<Rightarrow> nat list list" where
  "push_ref es r x = es[r := es ! r @ [x]]"

text \<open>\<open>letter !== originalLetter\<close>; past the end of the target the right side is \<open>undefined\<close>.\<close>

definition mismatch :: "jsstring \<Rightarrow> jsstring \<Rightarrow> nat \<Rightarrow> bool" where
  "mismatch text contentToCopy index =
     (char_at text (int index) \<noteq> char_at contentToCopy (int index))"

definition scan_step :: "jsstring \<Rightarrow> jsstring \<Rightarrow> scan_state \<Rightarrow> nat \<Rightarrow> scan_state" where
  "scan_step text contentToCopy st index =
     (if mismatch text contentToCopy index then
        (case error st of
           None \<Rightarrow> \<lparr>error = Some (length (errors st)), errors = errors st @ [[index]]\<rparr>
         | Some r \<Rightarrow> st)
      else
        (case error st of
           Some r \<Rightarrow> \<lparr>error = None, errors = push_ref (errors st) r index\<rparr>
         | None \<Rightarrow> st))"

definition scan_loop :: "jsstring \<Rightarrow> jsstring \<Rightarrow> nat \<Rightarrow> scan_state" where
  "scan_loop text contentToCopy n = foldl (scan_step text contentToCopy) scan_init [0..<n]"

text \<open>The array \<open>errors\<close> of \<open>onKeyUp\<close> once the run left open, if any, is closed.\<close>

definition error_runs :: "jsstring \<Rightarrow> jsstring \<Rightarrow> nat list list" where
  "error_runs text contentToCopy =
     (let st = scan_loop text contentToCopy (length text)
      in case error st of
           Some r \<Rightarrow> push_ref (errors st) r (length text)
         | None \<Rightarrow> errors st)"

subsection \<open>What an error run is\<close>

text \<open>
  An error run is a pair \<open>[start, end]\<close> that stands for the half-open interval of
  indices from \<open>start\<close> up to, not including, \<open>end\<close>: inside the typed text, all of
  its indices mismatching, and not extensible on either side.
\<close>

definition is_run :: "jsstring \<Rightarrow> jsstring \<Rightarrow> nat list \<Rightarrow> bool" where
  "is_run text contentToCopy r =
     (case r of
        [s, e] \<Rightarrow>
          s < e \<and> e \<le> length text \<and>
          (\<forall>i \<in> {s..<e}. mismatch text contentToCopy i) \<and>
          (s = 0 \<or> \<not> mismatch text contentToCopy (s - 1)) \<and>
          (e = length text \<or> \<not> mismatch text contentToCopy e)
      | _ \<Rightarrow> False)"

text \<open>Consecutive runs: the earlier one ends before the later one starts.\<close>

definition separated :: "nat list \<Rightarrow> nat list \<Rightarrow> bool" where
  "separated r r' = (last r < hd r')"

definition covered :: "nat list list \<Rightarrow> nat \<Rightarrow> bool" where
  "covered rs i = (\<exists>r \<in> set rs. hd r \<le> i \<and> i < last r)"

text \<open>
  For the proofs, the state of the scan is read as the list of the runs already closed
  and the start of the run that is open, if any; \<open>repr\<close> gives back the state of the
  loop, \<open>run_step\<close> is the loop body on this reading and \<open>runs_inv\<close> the invariant
  that holds after the indices below \<open>k\<close>.
\<close>

type_synonym runs = "(nat \<times> nat) list \<times> nat option"

definition run_step :: "(nat \<Rightarrow> bool) \<Rightarrow> runs \<Rightarrow> nat \<Rightarrow> runs" where
  "run_step mm a k =
     (case a of (closed, opn) \<Rightarrow>
        if mm k then (case opn of None \<Rightarrow> (closed, Some k) | Some s \<Rightarrow> (closed, Some s))
        else (case opn of Some s \<Rightarrow> (closed @ [(s, k)], None) | None \<Rightarrow> (closed, None)))"

definition pair_list :: "nat \<times> nat \<Rightarrow> nat list" where
  "pair_list p = [fst p, snd p]"

definition repr :: "runs \<Rightarrow> scan_state" where
  "repr a =
     (case a of (closed, opn) \<Rightarrow>
        \<lparr>error = (case opn of None \<Rightarrow> None | Some s \<Rightarrow> Some (length closed)),
         errors = map pair_list closed @ (case opn of None \<Rightarrow> [] | Some s \<Rightarrow> [[s]])\<rparr>)"

definition runs_inv :: "(nat \<Rightarrow> bool) \<Rightarrow> nat \<Rightarrow> runs \<Rightarrow> bool" where
  "runs_inv mm k a =
     (case a of (closed, opn) \<Rightarrow>
        (\<forall>(s, e) \<in> set closed. s < e \<and> e < k \<and> (\<forall>i. s \<le> i \<and> i < e \<longrightarrow> mm i) \<and>
            (s = 0 \<or> \<not> mm (s - 1)) \<and> \<not> mm e) \<and>
        sorted_wrt (\<lambda>p q. snd p < fst q) closed \<and>
        (case opn of
           None \<Rightarrow> k = 0 \<or> \<not> mm (k - 1)
         | Some s \<Rightarrow> s < k \<and> (\<forall>i. s \<le> i \<and> i < k \<longrightarrow> mm i) \<and> (s = 0 \<or> \<not> mm (s - 1)) \<and>
             (\<forall>(s', e') \<in> set closed. e' < s)) \<and>
        (\<forall>i < k. mm i \<longrightarrow>
            (\<exists>(s, e) \<in> set closed. s \<le> i \<and> i < e) \<or> (\<exists>s. opn = Some s \<and> s \<le> i)))"

definition close_runs :: "runs \<Rightarrow> nat \<Rightarrow> (nat \<times> nat) list" where
  "close_runs a n = (case a of (closed, opn) \<Rightarrow>
      (case opn of None \<Rightarrow> closed | Some s \<Rightarrow> closed @ [(s, n)]))"

definition final_runs :: "jsstring \<Rightarrow> jsstring \<Rightarrow> (nat \<times> nat) list" where
  "final_runs typed target =
     close_runs (foldl (run_step (mismatch typed target)) ([], None) [0..<length typed])
       (length typed)"

section \<open>Paste normalization\<close>

text \<open>
  \<open>s.replace(/c+/g, r)\<close> for a class \<open>c\<close> of code units: scanning from the left, each
  maximal run of units of the class is replaced by \<open>r\<close>.
\<close>

function replace_runs :: "(code_unit \<Rightarrow> bool) \<Rightarrow> jsstring \<Rightarrow> jsstring \<Rightarrow> jsstring" where
  "replace_runs p r [] = []"
| "replace_runs p r (c # cs) =
     (if p c then r @ replace_runs p r (dropWhile p cs) else c # replace_runs p r cs)"
  by pat_completeness auto
termination
  by (relation "measure (\<lambda>(p, r, s). length s)") (auto simp: length_dropWhile_le less_Suc_eq_le)

text \<open>\<open>s.replace(/c/g, '')\<close> for a single code unit \<open>c\<close>.\<close>

definition delete_all :: "code_unit \<Rightarrow> jsstring \<Rightarrow> jsstring" where
  "delete_all c s = filter (\<lambda>x. x \<noteq> c) s"

text \<open>
  The code units that \<open>trim\<close> removes and that \<open>\s\<close> matches: the ECMAScript
  WhiteSpace and LineTerminator code points, all of them in the Basic Multilingual Plane.
\<close>

definition is_white_space :: "code_unit \<Rightarrow> bool" where
  "is_white_space c =
     (c = 0x09 \<or> c = 0x0A \<or> c = 0x0B \<or> c = 0x0C \<or> c = 0x0D \<or> c = 0x20 \<or> c = 0xA0 \<or>
      c = 0x1680 \<or> (0x2000 \<le> c \<and> c \<le> 0x200A) \<or> c = 0x2028 \<or> c = 0x2029 \<or>
      c = 0x202F \<or> c = 0x205F \<or> c = 0x3000 \<or> c = 0xFEFF)"

definition trim :: "jsstring \<Rightarrow> jsstring" where
  "trim s = rev (dropWhile is_white_space (rev (dropWhile is_white_space s)))"

text \<open>
  The chain of \<open>onPaste\<close>:
  \<open>.replace(/ +/g, ' ').replace(/\t/g, '').replace(/\r/g, '').replace(/\n{1,}/g, '\n\n').trim()\<close>.
\<close>

definition normalize_paste :: "jsstring \<Rightarrow> jsstring" where
  "normalize_paste d =
     trim (replace_runs (\<lambda>c. c = LF) [LF, LF]
       (delete_all CR (delete_all TAB (replace_runs (\<lambda>c. c = SP) [SP] d))))"

text \<open>What the handlers read of an event target: its class list and its \<open>data-*\<close> attributes.\<close>

record element =
  classList :: "string list"
  dataset :: "(string \<times> jsstring) list"

text \<open>Truthiness of a value that is a string or \<open>undefined\<close>.\<close>

definition truthy :: "jsstring option \<Rightarrow> bool" where
  "truthy v = (case v of None \<Rightarrow> False | Some s \<Rightarrow> s \<noteq> [])"

definition data :: "element \<Rightarrow> string \<Rightarrow> jsstring option" where
  "data el name = map_of (dataset el) name"

record paste_event =
  paste_target :: element
  clipboardData :: "jsstring option"

text \<open>
  The outcome of a paste: whether the default action was prevented, the target text
  afterwards (\<open>setContentToCopy\<close> replaces it), and whether the deferred refocus of the
  input surface was scheduled.
\<close>

record paste_outcome =
  prevented :: bool
  content :: "jsstring option"
  refocus :: bool

definition onPaste :: "jsstring option \<Rightarrow> paste_event \<Rightarrow> paste_outcome" where
  "onPaste contentToCopy e =
     (if truthy contentToCopy then
        \<lparr>prevented = True, content = contentToCopy, refocus = False\<rparr>
      else if truthy (data (paste_target e) ''dontstealfocus'') then
        \<lparr>prevented = False, content = contentToCopy, refocus = False\<rparr>
      else
        (case clipboardData e of
           None \<Rightarrow> \<lparr>prevented = True, content = contentToCopy, refocus = False\<rparr>
         | Some d \<Rightarrow>
             let pastedData = normalize_paste d
             in if length pastedData < 1
                then \<lparr>prevented = True, content = contentToCopy, refocus = False\<rparr>
                else \<lparr>prevented = True, content = Some pastedData, refocus = True\<rparr>))"

subsection \<open>The normalization in words\<close>

text \<open>
  The maximal runs of a string with respect to a class of code units: consecutive units
  that are all inside or all outside the class.
\<close>

function runs_of :: "(code_unit \<Rightarrow> bool) \<Rightarrow> jsstring \<Rightarrow> jsstring list" where
  "runs_of p [] = []"
| "runs_of p (c # cs) =
     (c # takeWhile (\<lambda>y. p y = p c) cs) # runs_of p (dropWhile (\<lambda>y. p y = p c) cs)"
  by pat_completeness auto
termination
  by (relation "measure (\<lambda>(p, s). length s)") (auto simp: length_dropWhile_le less_Suc_eq_le)

text \<open>Every run of at least \<open>m\<close> units of the class becomes \<open>r\<close>; all else stays.\<close>

definition rewrite_runs :: "(code_unit \<Rightarrow> bool) \<Rightarrow> nat \<Rightarrow> jsstring \<Rightarrow> jsstring \<Rightarrow> jsstring" where
  "rewrite_runs p m r s =
     concat (map (\<lambda>run. if p (hd run) \<and> m \<le> length run then r else run) (runs_of p s))"

text \<open>
  The normalization as the specification words it: runs of spaces become one space, tabs
  and carriage returns go, runs of two or more newlines become two newlines (a lone
  newline stays), and the ends are trimmed.
\<close>

definition claimed_normalize :: "jsstring \<Rightarrow> jsstring" where
  "claimed_normalize d =
     trim (rewrite_runs (\<lambda>c. c = LF) 2 [LF, LF]
       (delete_all CR (delete_all TAB (rewrite_runs (\<lambda>c. c = SP) 1 [SP] d))))"

text \<open>The same with every run of one or more newlines becoming two newlines.\<close>

definition described_normalize :: "jsstring \<Rightarrow> jsstring" where
  "described_normalize d =
     trim (rewrite_runs (\<lambda>c. c = LF) 1 [LF, LF]
       (delete_all CR (delete_all TAB (rewrite_runs (\<lambda>c. c = SP) 1 [SP] d))))"

text \<open>A paste of the text \<open>d\<close> on a target without \<open>data-*\<close> attributes.\<close>

definition plain_paste :: "jsstring \<Rightarrow> paste_event" where
  "plain_paste d = \<lparr>paste_target = \<lparr>classList = [], dataset = []\<rparr>, clipboardData = Some d\<rparr>"

section \<open>The document\<close>

text \<open>
  The document is a tree of text nodes and elements (other kinds of node, such as
  comments, are not part of the model). A node is referred to by its path from the root
  (the child index taken at every level), so that two references are the same node, as
  \<open>===\<close> decides, exactly when the paths are equal.
\<close>

datatype node = Text jsstring | Element "node list"

type_synonym ref = "nat list"

fun textContent :: "node \<Rightarrow> jsstring" where
  "textContent (Text d) = d"
| "textContent (Element cs) = concat (map textContent cs)"

fun childNodes :: "node \<Rightarrow> node list" where
  "childNodes (Text d) = []"
| "childNodes (Element cs) = cs"

fun node_at :: "node \<Rightarrow> ref \<Rightarrow> node option" where
  "node_at n [] = Some n"
| "node_at (Text d) (i # p) = None"
| "node_at (Element cs) (i # p) = (if i < length cs then node_at (cs ! i) p else None)"

fun update_at :: "node \<Rightarrow> ref \<Rightarrow> node \<Rightarrow> node" where
  "update_at n [] new = new"
| "update_at (Text d) (i # p) new = Text d"
| "update_at (Element cs) (i # p) new =
     (if i < length cs then Element (cs[i := update_at (cs ! i) p new]) else Element cs)"

text \<open>The text nodes of a subtree in document order, each with its reference.\<close>

fun text_nodes :: "ref \<Rightarrow> node \<Rightarrow> (ref \<times> jsstring) list"
  and text_nodes_from :: "ref \<Rightarrow> nat \<Rightarrow> node list \<Rightarrow> (ref \<times> jsstring) list" where
  "text_nodes r (Text d) = [(r, d)]"
| "text_nodes r (Element cs) = text_nodes_from r 0 cs"
| "text_nodes_from r i [] = []"
| "text_nodes_from r i (c # cs) = text_nodes (r @ [i]) c @ text_nodes_from r (Suc i) cs"

text \<open>
  \<open>document.createTreeWalker(root, NodeFilter.SHOW_TEXT)\<close>: the nodes that successive
  calls of \<open>nextNode()\<close> return are the text nodes below the root; the root itself is
  never returned.
\<close>

definition tree_walker :: "node \<Rightarrow> ref \<Rightarrow> (ref \<times> jsstring) list" where
  "tree_walker d root =
     (case node_at d root of
        Some (Element cs) \<Rightarrow> text_nodes_from root 0 cs
      | _ \<Rightarrow> [])"

fun walk_position :: "(ref \<times> jsstring) list \<Rightarrow> ref \<Rightarrow> int \<Rightarrow> int \<Rightarrow> int" where
  "walk_position [] currentNode offset position = position"
| "walk_position ((node, d) # rest) currentNode offset position =
     (if node = currentNode then position + offset
      else walk_position rest currentNode offset (position + int (length d)))"

definition getTextPosition :: "node \<Rightarrow> ref \<Rightarrow> ref \<Rightarrow> int \<Rightarrow> int" where
  "getTextPosition d editor currentNode offset =
     walk_position (tree_walker d editor) currentNode offset 0"

section \<open>The editing session\<close>

text \<open>
  \<open>window.getSelection()\<close> is \<open>null\<close> or a selection with its ranges; of a range the
  handlers read the start container and the start offset.
\<close>

datatype selection = NoSelection | Ranges "(ref \<times> nat) list"

datatype error = IndexSizeError | TypeError

text \<open>
  The state the handlers work on: the target text of the enclosing hook, the document,
  the input surface \<open>writerRef.current\<close> (mounted, as the handlers require before they
  do anything) and the window's selection.
\<close>

record session =
  contentToCopy :: "jsstring option"
  doc :: node
  writer :: ref
  selection :: selection

definition lastChild_of :: "node \<Rightarrow> ref \<Rightarrow> ref option" where
  "lastChild_of d r =
     (case node_at d r of
        Some (Element cs) \<Rightarrow> (if cs = [] then None else Some (r @ [length cs - 1]))
      | _ \<Rightarrow> None)"

text \<open>
  \<open>node.textContent\<close> through a reference; a reference that addresses no node of the
  tree stands for a node outside it and has no text content here.
\<close>

definition textContent_at :: "node \<Rightarrow> ref \<Rightarrow> jsstring option" where
  "textContent_at d r = map_option textContent (node_at d r)"

text \<open>Assigning \<open>node.textContent\<close>: an element keeps a single text child, or none.\<close>

fun set_textContent :: "node \<Rightarrow> jsstring \<Rightarrow> node" where
  "set_textContent (Text d) s = Text s"
| "set_textContent (Element cs) s = Element (if s = [] then [] else [Text s])"

text \<open>The length of a node, which bounds the offset of a range boundary in it.\<close>

fun node_length :: "node \<Rightarrow> nat" where
  "node_length (Text d) = length d"
| "node_length (Element cs) = length cs"

text \<open>
  \<open>range.setStart(node, offset)\<close> of a fresh range, collapsed and made the only range of
  the selection. The offset is converted to an unsigned long: a negative number wraps to
  a huge one and fails like every offset beyond the node's length.
\<close>

definition set_caret :: "session \<Rightarrow> ref \<Rightarrow> int \<Rightarrow> error + session" where
  "set_caret st node offset =
     (case node_at (doc st) node of
        None \<Rightarrow> Inl IndexSizeError
      | Some n \<Rightarrow>
          if offset < 0 \<or> int (node_length n) < offset then Inl IndexSizeError
          else Inr (st\<lparr>selection := Ranges [(node, nat offset)]\<rparr>))"

section \<open>Lines of the target\<close>

text \<open>\<open>/[^a-z0-9]/i\<close> without the \<open>u\<close> flag: the units outside A-Z, a-z and 0-9.\<close>

definition is_alphanumeric :: "code_unit \<Rightarrow> bool" where
  "is_alphanumeric c =
     ((0x30 \<le> c \<and> c \<le> 0x39) \<or> (0x41 \<le> c \<and> c \<le> 0x5A) \<or> (0x61 \<le> c \<and> c \<le> 0x7A))"

definition NotAlphanumericRegex_test :: "jsstring \<Rightarrow> bool" where
  "NotAlphanumericRegex_test s = list_ex (\<lambda>c. \<not> is_alphanumeric c) s"

text \<open>\<open>s.split(c)\<close> for a one-unit separator.\<close>

fun split_on :: "code_unit \<Rightarrow> jsstring \<Rightarrow> jsstring list" where
  "split_on c [] = [[]]"
| "split_on c (x # xs) =
     (if x = c then [] # split_on c xs
      else (case split_on c xs of l # ls \<Rightarrow> (x # l) # ls | [] \<Rightarrow> [[x]]))"

text \<open>
  The loop of \<open>getCurrentLineIndex\<close> over the children of the parent; \<open>i\<close> is the loop
  counter, which \<open>lineIndex\<close> equals throughout, and \<open>k\<close> the position of \<open>node\<close>.
\<close>

fun line_index_loop :: "node list \<Rightarrow> nat \<Rightarrow> nat \<Rightarrow> int \<Rightarrow> node option \<Rightarrow> int" where
  "line_index_loop [] i k offset lastChild = 0"
| "line_index_loop (child # rest) i k offset lastChild =
     (let offset' =
        (if textContent child = [LF] \<and> map_option textContent lastChild = Some [LF]
         then offset + 1 else offset)
      in if i = k then int i - offset'
         else line_index_loop rest (Suc i) k offset' (Some child))"

definition getCurrentLineIndex :: "node \<Rightarrow> ref \<Rightarrow> int" where
  "getCurrentLineIndex d node =
     (if node = [] then 0
      else (case node_at d (butlast node) of
              Some parent \<Rightarrow> line_index_loop (childNodes parent) 0 (last node) 0 None
            | None \<Rightarrow> 0))"

definition getCurrentLine :: "node \<Rightarrow> jsstring \<Rightarrow> ref \<Rightarrow> jsstring" where
  "getCurrentLine d target node =
     (if target = [] then []
      else let lines = split_on LF target;
               lineIndex = getCurrentLineIndex d node
           in if 0 \<le> lineIndex \<and> lineIndex < int (length lines) then lines ! nat lineIndex
              else [])"

section \<open>Correction engines\<close>

text \<open>
  The node and the index that \<open>handleIgnorePunctuation\<close> works on: a selection anchored
  on the input surface itself is taken to be at the end of its last child.
\<close>

definition punctuation_node :: "session \<Rightarrow> ref \<Rightarrow> ref" where
  "punctuation_node st startContainer =
     (if startContainer = writer st
      then (case lastChild_of (doc st) (writer st) of Some l \<Rightarrow> l | None \<Rightarrow> writer st)
      else startContainer)"

definition punctuation_index :: "session \<Rightarrow> ref \<Rightarrow> nat \<Rightarrow> nat" where
  "punctuation_index st startContainer startOffset =
     (if startContainer = writer st
      then (case lastChild_of (doc st) (writer st) of
              Some l \<Rightarrow> (case textContent_at (doc st) l of Some t \<Rightarrow> length t | None \<Rightarrow> 0)
            | None \<Rightarrow> 0)
      else startOffset)"

definition handleIgnorePunctuation :: "jsstring \<Rightarrow> session \<Rightarrow> error + (bool \<times> session)" where
  "handleIgnorePunctuation key st =
     (if \<not> truthy (contentToCopy st) \<or> \<not> NotAlphanumericRegex_test key \<or> key = [SP]
      then Inr (False, st)
      else
        (case selection st of
           NoSelection \<Rightarrow> Inr (False, st)
         | Ranges [] \<Rightarrow> Inl IndexSizeError
         | Ranges ((startContainer, startOffset) # _) \<Rightarrow>
             let node = punctuation_node st startContainer;
                 index = punctuation_index st startContainer startOffset;
                 line = getCurrentLine (doc st) (the (contentToCopy st)) node
             in if line = [] then Inr (False, st)
                else
                  (case char_at line (int index) of
                     None \<Rightarrow> Inr (False, st)
                   | Some letter \<Rightarrow>
                       if is_alphanumeric letter \<or> letter = LF then Inr (False, st)
                       else
                         (case node_at (doc st) node of
                            None \<Rightarrow> Inr (True, st)
                          | Some n \<Rightarrow>
                              let new = slice (textContent n) 0 (int index) @ [letter] @
                                        slice_from (textContent n) (int index);
                                  st' = st\<lparr>doc := update_at (doc st) node (set_textContent n new)\<rparr>
                              in (case set_caret st' node
                                         (min (int index + 1) (int (length new))) of
                                    Inl err \<Rightarrow> Inl err
                                  | Inr st'' \<Rightarrow> Inr (True, st''))))))"

text \<open>
  The loop of \<open>handleAutocorrect\<close> over the children of the input surface: it stops at
  the first text node whose end is at or past \<open>start\<close>, and yields the position of that
  child, its content and the offset at which it begins.
\<close>

fun find_text_child :: "node list \<Rightarrow> nat \<Rightarrow> int \<Rightarrow> int \<Rightarrow> (nat \<times> jsstring \<times> int) option" where
  "find_text_child [] i currentOffset start = None"
| "find_text_child (currentNode # rest) i currentOffset start =
     (let nodeLength = int (length (textContent currentNode))
      in if currentOffset + nodeLength \<ge> start then
           (case currentNode of
              Text d \<Rightarrow> Some (i, d, currentOffset)
            | Element cs \<Rightarrow> find_text_child rest (Suc i) (currentOffset + nodeLength) start)
         else find_text_child rest (Suc i) (currentOffset + nodeLength) start)"

text \<open>
  What \<open>handleAutocorrect\<close> reads of the input surface: the node of the caret (the last
  child when the selection is anchored on the surface itself), the whole typed text
  \<open>writer.textContent || ''\<close>, and the children it walks.
\<close>

definition autocorrect_node :: "session \<Rightarrow> ref \<Rightarrow> ref option" where
  "autocorrect_node st startContainer =
     (if startContainer = writer st then lastChild_of (doc st) (writer st)
      else Some startContainer)"

definition fullText :: "session \<Rightarrow> jsstring" where
  "fullText st = (case textContent_at (doc st) (writer st) of Some t \<Rightarrow> t | None \<Rightarrow> [])"

definition surface_children :: "session \<Rightarrow> node list" where
  "surface_children st =
     (case node_at (doc st) (writer st) of Some w \<Rightarrow> childNodes w | None \<Rightarrow> [])"

definition handleAutocorrect :: "jsstring \<Rightarrow> session \<Rightarrow> bool \<Rightarrow> error + (bool \<times> session)" where
  "handleAutocorrect key st addSpace =
     (if \<not> truthy (contentToCopy st) then Inr (False, st)
      else
        (case selection st of
           NoSelection \<Rightarrow> Inr (False, st)
         | Ranges [] \<Rightarrow> Inl IndexSizeError
         | Ranges ((startContainer, startOffset) # _) \<Rightarrow>
             (case autocorrect_node st startContainer of
                None \<Rightarrow> Inr (False, st)
              | Some node \<Rightarrow>
                  if textContent_at (doc st) node = None then Inr (False, st)
                  else
                    let target = the (contentToCopy st);
                        currentPosition =
                          getTextPosition (doc st) (writer st) node (int startOffset);
                        start = getPreviousSpace (fullText st) (Some currentPosition);
                        end = getNextSpace target currentPosition;
                        willAddSpace = (addSpace \<and> end < int (length target));
                        enteredWord = slice (fullText st) start currentPosition;
                        targetWord = slice target start end
                    in if enteredWord = targetWord then Inr (False, st)
                       else if currentPosition > start \<and> (key = [SP] \<or> currentPosition = end)
                       then
                         (case find_text_child (surface_children st) 0 0 start of
                            None \<Rightarrow> Inr (True, st)
                          | Some (i, d, currentOffset) \<Rightarrow>
                              let beforeText = slice d 0 (start - currentOffset);
                                  afterText = slice_from d (end - currentOffset);
                                  new = beforeText @ targetWord @
                                        (if willAddSpace then [SP] else []) @ afterText;
                                  newPosition = start - currentOffset + int (length targetWord) +
                                                (if willAddSpace then 1 else 0);
                                  st' = st\<lparr>doc := update_at (doc st) (writer st @ [i]) (Text new)\<rparr>
                              in (case set_caret st' (writer st @ [i])
                                         (min newPosition (int (length new))) of
                                    Inl err \<Rightarrow> Inl err
                                  | Inr st'' \<Rightarrow> Inr (True, st'')))
                       else Inr (False, st))))"

section \<open>Event orchestrator: key down\<close>

definition wouldCreateConsecutiveSpaces :: "session \<Rightarrow> error + bool" where
  "wouldCreateConsecutiveSpaces st =
     (case selection st of
        NoSelection \<Rightarrow> Inr False
      | Ranges [] \<Rightarrow> Inl IndexSizeError
      | Ranges ((startContainer, startOffset) # _) \<Rightarrow>
          let index = punctuation_index st startContainer startOffset;
              line = (case autocorrect_node st startContainer of
                        None \<Rightarrow> []
                      | Some node \<Rightarrow>
                          (case textContent_at (doc st) node of Some t \<Rightarrow> t | None \<Rightarrow> []))
          in Inr (char_at line (int index - 1) = Some SP \<or> char_at line (int index) = Some SP))"

record settings =
  autocorrect :: bool
  ignore_punctuation :: bool

record key_event =
  key :: jsstring
  metaKey :: bool
  altKey :: bool
  ctrlKey :: bool
  key_target :: element

text \<open>
  The key-down handler, with its result: whether the default action of the key was
  prevented, and the session afterwards. The branch of the Enter key reads
  \<open>innerText\<close>, which depends on the rendered layout, and inserts nodes through the
  range; it is outside this model, and the handler is \<open>None\<close> there.
\<close>

definition onKeydown ::
  "settings \<Rightarrow> session \<Rightarrow> key_event \<Rightarrow> (error + (bool \<times> session)) option" where
  "onKeydown cfg st e =
     (if \<not> truthy (contentToCopy st) then Some (Inr (False, st))
      else if truthy (data (key_target e) ''dontstealfocus'') then Some (Inr (False, st))
      else if metaKey e \<or> altKey e \<or> ctrlKey e then Some (Inr (False, st))
      else if key e = js ''Enter'' then None
      else Some
        (case (if key e = [SP]
               then (if fullText st = [] then Inr True else wouldCreateConsecutiveSpaces st)
               else Inr False) of
           Inl err \<Rightarrow> Inl err
         | Inr True \<Rightarrow> Inr (True, st)
         | Inr False \<Rightarrow>
             (case (if ignore_punctuation cfg then handleIgnorePunctuation (key e) st
                    else Inr (False, st)) of
                Inl err \<Rightarrow> Inl err
              | Inr (True, st') \<Rightarrow> Inr (True, st')
              | Inr (False, st') \<Rightarrow>
                  if autocorrect cfg \<and> key e = [SP]
                  then (case handleAutocorrect (key e) st' True of
                          Inl err \<Rightarrow> Inl err
                        | Inr (True, st'') \<Rightarrow> Inr (True, st'')
                        | Inr (False, st'') \<Rightarrow> Inr (False, st''))
                  else Inr (False, st'))))"

text \<open>A key pressed without modifiers on a target without \<open>data-*\<close> attributes.\<close>

definition key_press :: "jsstring \<Rightarrow> key_event" where
  "key_press k =
     \<lparr>key = k, metaKey = False, altKey = False, ctrlKey = False,
      key_target = \<lparr>classList = [], dataset = []\<rparr>\<rparr>"

text \<open>
  A session whose document holds just the input surface, with the given children, and
  whose selection is a caret in the given node at the given offset.
\<close>

definition surface :: "jsstring option \<Rightarrow> node list \<Rightarrow> ref \<Rightarrow> nat \<Rightarrow> session" where
  "surface target cs container offset =
     \<lparr>contentToCopy = target, doc = Element [Element cs], writer = [0],
      selection = Ranges [(container, offset)]\<rparr>"

section \<open>Word segmentation for click-to-jump\<close>

text \<open>
  \<open>text.split(/(\s+)/)\<close>: the separator is matched at the first position where a
  white-space unit stands and takes the whole run; the piece before it and the run
  itself (the capture) are both appended. \<open>cur\<close> is the piece collected so far.
\<close>

function split_tokens :: "jsstring \<Rightarrow> jsstring \<Rightarrow> jsstring list" where
  "split_tokens cur [] = [cur]"
| "split_tokens cur (c # cs) =
     (if is_white_space c
      then cur # (c # takeWhile is_white_space cs) #
           split_tokens [] (dropWhile is_white_space cs)
      else split_tokens (cur @ [c]) cs)"
  by pat_completeness auto
termination
  by (relation "measure (\<lambda>(cur, s). length s)") (auto simp: length_dropWhile_le less_Suc_eq_le)

definition split_whitespace :: "jsstring \<Rightarrow> jsstring list" where
  "split_whitespace s = split_tokens [] s"

text \<open>\<open>String(n)\<close> for a non-negative integer: its decimal digits.\<close>

definition digit :: "nat \<Rightarrow> code_unit" where
  "digit d = 0x30 + of_nat d"

function number_to_string :: "nat \<Rightarrow> jsstring" where
  "number_to_string n =
     (if n < 10 then [digit n] else number_to_string (n div 10) @ [digit (n mod 10)])"
  by pat_completeness auto
termination
  by (relation "measure id") auto

declare number_to_string.simps [simp del]

text \<open>
  \<open>parseInt(s, 10)\<close>: leading white space is skipped, a sign is read, and the longest
  run of decimal digits gives the value; without a digit the result is \<open>NaN\<close>, here
  \<open>None\<close>.
\<close>

definition is_digit :: "code_unit \<Rightarrow> bool" where
  "is_digit c = (0x30 \<le> c \<and> c \<le> 0x39)"

definition digit_value :: "code_unit \<Rightarrow> nat" where
  "digit_value c = unat c - 48"

definition parseInt :: "jsstring \<Rightarrow> int option" where
  "parseInt s =
     (let s1 = dropWhile is_white_space s;
          sign = (if s1 \<noteq> [] \<and> hd s1 = 0x2D then - 1 else 1 :: int);
          s2 = (if s1 \<noteq> [] \<and> (hd s1 = 0x2D \<or> hd s1 = 0x2B) then tl s1 else s1);
          ds = takeWhile is_digit s2
      in if ds = [] then None
         else Some (sign * int (foldl (\<lambda>a c. 10 * a + digit_value c) 0 ds)))"

text \<open>
  \<open>wrapWordsInSpans\<close>: every piece that is not blank is wrapped in a span that carries
  its index among the pieces.
\<close>

definition wrapWordsInSpans :: "jsstring \<Rightarrow> jsstring" where
  \<open>wrapWordsInSpans s =
     concat (map (\<lambda>(index, part).
        if length (trim part) = 0 then part
        else js ''<span class="word" data-offset="'' @ number_to_string index @ js ''">'' @
             part @ js ''</span>'')
       (enumerate 0 (split_whitespace s)))\<close>

text \<open>
  The word elements that this markup renders, in order: one element of class \<open>word\<close>
  for each piece that is not blank, with the index of the piece as its
  \<open>data-offset\<close>.
\<close>

definition word_element :: "nat \<Rightarrow> element" where
  "word_element index =
     \<lparr>classList = [''word''], dataset = [(''offset'', number_to_string index)]\<rparr>"

definition rendered_words :: "jsstring \<Rightarrow> element list" where
  "rendered_words s =
     map (\<lambda>(index, part). word_element index)
       (filter (\<lambda>(index, part). length (trim part) \<noteq> 0) (enumerate 0 (split_whitespace s)))"

text \<open>
  The loop of \<open>getWordStartPosition\<close>; reading \<open>words[i].length\<close> past the end of the
  array is a TypeError.
\<close>

function word_position_loop :: "jsstring list \<Rightarrow> nat \<Rightarrow> int \<Rightarrow> nat \<Rightarrow> error + nat" where
  "word_position_loop words i offset position =
     (if int i < offset
      then (if i < length words
            then word_position_loop words (Suc i) offset (position + length (words ! i))
            else Inl TypeError)
      else Inr position)"
  by pat_completeness auto
termination
  by (relation "measure (\<lambda>(words, i, offset, position). nat (offset - int i))") auto

declare word_position_loop.simps [simp del]

definition getWordStartPosition :: "jsstring \<Rightarrow> element \<Rightarrow> error + nat" where
  "getWordStartPosition s wordElement =
     (let words = split_whitespace s;
          offset = parseInt (case data wordElement ''offset'' of
                               Some v \<Rightarrow> (if v = [] then js ''0'' else v)
                             | None \<Rightarrow> js ''0'')
      in case offset of
           None \<Rightarrow> Inr 0
         | Some n \<Rightarrow> word_position_loop words 0 n 0)"

section \<open>Event orchestrator: click\<close>

text \<open>
  Assigning \<open>innerHTML\<close> a text without markup (no \<open><\<close>, no \<open>&\<close>, no NUL and no
  carriage return, which the HTML parser would interpret) leaves a single text node
  with that text, or no node for the empty text. A text with markup is outside this
  model: \<open>None\<close>.
\<close>

definition set_innerHTML :: "jsstring \<Rightarrow> node list option" where
  "set_innerHTML html =
     (if list_ex (\<lambda>c. c = 0x3C \<or> c = 0x26 \<or> c = 0x00 \<or> c = 0x0D) html then None
      else Some (if html = [] then [] else [Text html]))"

text \<open>
  \<open>range.selectNodeContents(writer); range.collapse(false)\<close>, made the only range of
  the selection when there is a selection.
\<close>

definition caret_to_end :: "session \<Rightarrow> session" where
  "caret_to_end st =
     (case selection st of
        NoSelection \<Rightarrow> st
      | Ranges rs \<Rightarrow> st\<lparr>selection := Ranges [(writer st, length (surface_children st))]\<rparr>)"

definition onClick :: "session \<Rightarrow> element \<Rightarrow> (error + (bool \<times> session)) option" where
  "onClick st target =
     (if \<not> truthy (contentToCopy st) then Some (Inr (False, st))
      else if ''word'' \<in> set (classList target) then
        (case getWordStartPosition (the (contentToCopy st)) target of
           Inl err \<Rightarrow> Some (Inl err)
         | Inr position \<Rightarrow>
             let textBefore = substring (the (contentToCopy st)) 0 (int position)
             in (case set_innerHTML textBefore of
                   None \<Rightarrow> None
                 | Some cs \<Rightarrow>
                     Some (Inr (True,
                       caret_to_end (st\<lparr>doc := update_at (doc st) (writer st) (Element cs)\<rparr>)))))
      else if truthy (data target ''editor'') \<or> truthy (data target ''dontstealfocus'')
      then Some (Inr (False, st))
      else Some (Inr (False, caret_to_end st)))"

section \<open>Word boundaries\<close>

lemma scan_up_range:
  "scan_up c xs k = - 1 \<or> (int k \<le> scan_up c xs k \<and> scan_up c xs k < int (k + length xs))"
  by (induction xs arbitrary: k) force+

lemma scan_down_range:
  "scan_down c s k = - 1 \<or>
   (0 \<le> scan_down c s k \<and> scan_down c s k < int (length s) \<and>
    s ! nat (scan_down c s k) = c)"
proof (induction k)
  case 0
  then show ?case by auto
next
  case (Suc k)
  have "nat (1 + int k) = Suc k" by simp
  with Suc show ?case by auto
qed

lemma getNextSpace_range: "0 \<le> getNextSpace t k \<and> getNextSpace t k \<le> int (length t)"
proof (cases "t = []")
  case True
  then show ?thesis by (simp add: getNextSpace_def)
next
  case False
  define start where "start = nat (min (max k 0) (int (length t)))"
  have le: "start \<le> length t" by (simp add: start_def)
  from scan_up_range [of SP "drop start t" start] le False show ?thesis
    by (auto simp: getNextSpace_def indexOf_def Let_def start_def [symmetric])
qed

lemma getPreviousSpace_lands:
  "getPreviousSpace t off = 0 \<or>
   (0 < getPreviousSpace t off \<and> getPreviousSpace t off \<le> int (length t) \<and>
    char_at t (getPreviousSpace t off - 1) = Some SP)"
proof (cases "t = []")
  case True
  then show ?thesis by (simp add: getPreviousSpace_def)
next
  case False
  define start where
    "start = (case off of None \<Rightarrow> length t | Some p \<Rightarrow> nat (min (max p 0) (int (length t))))"
  from scan_down_range [of SP t start] False show ?thesis
    by (auto simp: getPreviousSpace_def lastIndexOf_def Let_def char_at_def
        start_def [symmetric])
qed

text \<open>
  C6. For every string \<open>t\<close> and every offset \<open>k\<close>, the composition
  \<open>getPreviousSpace(t, getNextSpace(t, k))\<close> is a position of \<open>t\<close> (between 0 and
  its length) that is either 0 or an index \<open>p\<close> with \<open>t[p - 1]\<close> a space.
\<close>

theorem getPreviousSpace_getNextSpace_boundary:
  "0 \<le> getPreviousSpace t (Some (getNextSpace t k)) \<and>
   getPreviousSpace t (Some (getNextSpace t k)) \<le> int (length t) \<and>
   (getPreviousSpace t (Some (getNextSpace t k)) = 0 \<or>
    char_at t (getPreviousSpace t (Some (getNextSpace t k)) - 1) = Some SP)"
  using getPreviousSpace_lands [of t "Some (getNextSpace t k)"] by auto

theorem getPreviousSpace_getNextSpace_boundary_witness:
  "getNextSpace (js ''one two three'') 5 = 7 \<and>
   getPreviousSpace (js ''one two three'') (Some 7) = 8 \<and>
   char_at (js ''one two three'') (8 - 1) = Some SP"
proof -
  have n: "getNextSpace (js ''one two three'') 5 = 7"
    by code_simp
  have p: "getPreviousSpace (js ''one two three'') (Some 7) = 8"
    by code_simp
  from getPreviousSpace_getNextSpace_boundary [of "js ''one two three''" 5] n p
  show ?thesis by simp
qed

section \<open>Error runs\<close>

lemma push_ref_last: "length xs = n \<Longrightarrow> push_ref (xs @ [y]) n x = xs @ [y @ [x]]"
  by (simp add: push_ref_def nth_append list_update_append)

lemma scan_step_repr:
  "scan_step typed target (repr a) k = repr (run_step (mismatch typed target) a k)"
  by (cases a) (auto simp: scan_step_def repr_def run_step_def push_ref_last pair_list_def
      split: option.splits)

lemma scan_loop_repr:
  "scan_loop typed target n = repr (foldl (run_step (mismatch typed target)) ([], None) [0..<n])"
proof (induction n)
  case 0
  show ?case by (simp add: scan_loop_def scan_init_def repr_def)
next
  case (Suc n)
  then show ?case by (simp add: scan_loop_def scan_step_repr)
qed

lemma runs_inv_step:
  assumes "runs_inv mm k a"
  shows "runs_inv mm (Suc k) (run_step mm a k)"
proof (cases a)
  case (Pair closed opn)
  show ?thesis
  proof (cases "mm k")
    case True
    show ?thesis
    proof (cases opn)
      case None
      with assms Pair True show ?thesis
        unfolding runs_inv_def run_step_def
        by (auto simp: less_Suc_eq)
    next
      case (Some s)
      with assms Pair True show ?thesis
        unfolding runs_inv_def run_step_def
        by (auto simp: less_Suc_eq)
    qed
  next
    case False
    show ?thesis
    proof (cases opn)
      case None
      with assms Pair False show ?thesis
        unfolding runs_inv_def run_step_def
        by (auto simp: less_Suc_eq)
    next
      case (Some s)
      with assms Pair False show ?thesis
        unfolding runs_inv_def run_step_def
        by (auto simp: less_Suc_eq sorted_wrt_append)
    qed
  qed
qed

lemma runs_inv_loop:
  "runs_inv mm n (foldl (run_step mm) ([], None) [0..<n])"
proof (induction n)
  case 0
  show ?case by (simp add: runs_inv_def)
next
  case (Suc n)
  then show ?case by (simp add: runs_inv_step)
qed

lemma error_runs_final: "error_runs typed target = map pair_list (final_runs typed target)"
  by (auto simp: error_runs_def scan_loop_repr final_runs_def close_runs_def repr_def
      push_ref_last pair_list_def Let_def split: prod.splits option.splits)

lemma final_runs_props:
  fixes typed target
  defines "mm \<equiv> mismatch typed target" and "n \<equiv> length typed"
  shows "(\<forall>(s, e) \<in> set (final_runs typed target). s < e \<and> e \<le> n \<and>
            (\<forall>i. s \<le> i \<and> i < e \<longrightarrow> mm i) \<and> (s = 0 \<or> \<not> mm (s - 1)) \<and> (e = n \<or> \<not> mm e))"
    and "sorted_wrt (\<lambda>p q. snd p < fst q) (final_runs typed target)"
    and "\<forall>i < n. mm i \<longrightarrow> (\<exists>(s, e) \<in> set (final_runs typed target). s \<le> i \<and> i < e)"
proof -
  define a where "a = foldl (run_step mm) ([], None) [0..<n]"
  have inv: "runs_inv mm n a"
    unfolding a_def by (rule runs_inv_loop)
  have fr: "final_runs typed target = close_runs a n"
    by (simp add: final_runs_def a_def mm_def n_def)
  obtain closed opn where a: "a = (closed, opn)" by (cases a)
  show "(\<forall>(s, e) \<in> set (final_runs typed target). s < e \<and> e \<le> n \<and>
            (\<forall>i. s \<le> i \<and> i < e \<longrightarrow> mm i) \<and> (s = 0 \<or> \<not> mm (s - 1)) \<and> (e = n \<or> \<not> mm e))"
    using inv unfolding fr a runs_inv_def close_runs_def
    by (cases opn) (auto simp: less_imp_le)
  show "sorted_wrt (\<lambda>p q. snd p < fst q) (final_runs typed target)"
    using inv unfolding fr a runs_inv_def close_runs_def
    by (cases opn) (auto simp: sorted_wrt_append)
  show "\<forall>i < n. mm i \<longrightarrow> (\<exists>(s, e) \<in> set (final_runs typed target). s \<le> i \<and> i < e)"
    using inv unfolding fr a runs_inv_def close_runs_def
    by (cases opn) auto
qed

lemma error_runs_are_runs: "r \<in> set (error_runs typed target) \<Longrightarrow> is_run typed target r"
  using final_runs_props(1) [of typed target]
  by (auto simp: error_runs_final is_run_def pair_list_def)

lemma error_runs_separated: "sorted_wrt separated (error_runs typed target)"
  using final_runs_props(2) [of typed target]
  by (simp add: error_runs_final sorted_wrt_map separated_def pair_list_def)

lemma error_runs_cover:
  "i < length typed \<Longrightarrow> mismatch typed target i \<Longrightarrow> covered (error_runs typed target) i"
proof -
  assume "i < length typed" "mismatch typed target i"
  with final_runs_props(3) [of typed target]
  obtain s e where "(s, e) \<in> set (final_runs typed target)" "s \<le> i" "i < e"
    by blast
  then have "pair_list (s, e) \<in> set (error_runs typed target)"
    "hd (pair_list (s, e)) \<le> i" "i < last (pair_list (s, e))"
    by (simp_all add: error_runs_final) (simp_all add: pair_list_def)
  then show ?thesis
    unfolding covered_def by blast
qed

lemma error_runs_none:
  assumes "\<forall>i \<in> {0..<length typed}. \<not> mismatch typed target i"
  shows "error_runs typed target = []"
proof (rule ccontr)
  assume "error_runs typed target \<noteq> []"
  then obtain r where r: "r \<in> set (error_runs typed target)"
    by (cases "error_runs typed target") auto
  from error_runs_are_runs [OF r] obtain s e where
    "s < e" "e \<le> length typed" "\<forall>i \<in> {s..<e}. mismatch typed target i"
    by (auto simp: is_run_def split: list.splits)
  then have "s < length typed" "mismatch typed target s" by auto
  with assms show False by simp
qed

lemma error_runs_all:
  assumes n: "1 \<le> length typed"
    and all: "\<forall>i \<in> {0..<length typed}. mismatch typed target i"
  shows "error_runs typed target = [[0, length typed]]"
proof -
  have whole: "r = [0, length typed]" if "r \<in> set (error_runs typed target)" for r
    using error_runs_are_runs [OF that] all
    by (auto simp: is_run_def split: list.splits)
  from n all have "covered (error_runs typed target) 0"
    by (intro error_runs_cover) auto
  then have ne: "error_runs typed target \<noteq> []"
    by (auto simp: covered_def)
  have sep: "sorted_wrt separated (error_runs typed target)"
    by (rule error_runs_separated)
  show ?thesis
  proof (cases "error_runs typed target")
    case Nil
    with ne show ?thesis by simp
  next
    case (Cons r rs)
    have r: "r = [0, length typed]" using whole Cons by simp
    have "rs = []"
    proof (cases rs)
      case Nil
      then show ?thesis .
    next
      case (Cons r' rs')
      with \<open>error_runs typed target = r # rs\<close> whole have "r' = [0, length typed]" by simp
      with sep \<open>error_runs typed target = r # rs\<close> Cons r show ?thesis
        by (simp add: separated_def)
    qed
    with Cons r show ?thesis by simp
  qed
qed

text \<open>
  C4. The key-up error-run computation is total (it is a fold over the indices of the
  typed text, and every run it returns is a complete pair); a typed text that agrees with
  the target at every one of its indices gives no run; a typed text of length
  \<open>n \<ge> 1\<close> that differs from the target at every index gives exactly the run
  \<open>[0, n)\<close>.
\<close>

theorem error_runs_total_and_extremes:
  "(\<forall>r \<in> set (error_runs typed target). length r = 2) \<and>
   ((\<forall>i \<in> {0..<length typed}. char_at typed (int i) = char_at target (int i)) \<longrightarrow>
      error_runs typed target = []) \<and>
   (1 \<le> length typed \<and>
    (\<forall>i \<in> {0..<length typed}. char_at typed (int i) \<noteq> char_at target (int i)) \<longrightarrow>
      error_runs typed target = [[0, length typed]])"
proof (intro conjI impI ballI)
  fix r assume "r \<in> set (error_runs typed target)"
  from error_runs_are_runs [OF this] show "length r = 2"
    by (auto simp: is_run_def split: list.splits)
next
  assume "\<forall>i \<in> {0..<length typed}. char_at typed (int i) = char_at target (int i)"
  then show "error_runs typed target = []"
    by (intro error_runs_none) (simp add: mismatch_def)
next
  assume "1 \<le> length typed \<and>
    (\<forall>i \<in> {0..<length typed}. char_at typed (int i) \<noteq> char_at target (int i))"
  then show "error_runs typed target = [[0, length typed]]"
    by (intro error_runs_all) (simp_all add: mismatch_def)
qed

theorem error_runs_total_and_extremes_witness:
  "error_runs (js ''the'') (js ''the quick fox'') = [] \<and>
   error_runs (js ''xyz'') (js ''ab'') = [[0, 3]] \<and>
   list_all (\<lambda>r. length r = 2) (error_runs (js ''teh quikc'') (js ''the quick fox''))"
proof -
  have h1: "\<forall>i \<in> {0..<length (js ''the'')}.
      char_at (js ''the'') (int i) = char_at (js ''the quick fox'') (int i)"
    by code_simp
  have h2: "1 \<le> length (js ''xyz'') \<and> (\<forall>i \<in> {0..<length (js ''xyz'')}.
      char_at (js ''xyz'') (int i) \<noteq> char_at (js ''ab'') (int i))"
    by code_simp
  have l: "length (js ''xyz'') = 3" by (simp add: js_def)
  from h1 h2 l
    error_runs_total_and_extremes [of "js ''the''" "js ''the quick fox''"]
    error_runs_total_and_extremes [of "js ''xyz''" "js ''ab''"]
    error_runs_total_and_extremes [of "js ''teh quikc''" "js ''the quick fox''"]
  show ?thesis by (simp add: list_all_iff)
qed

text \<open>
  C5. For every typed text and target, each run of the key-up scan is a half-open
  interval \<open>[start, end)\<close> with \<open>0 \<le> start < end \<le> length typed\<close> whose indices all
  mismatch and which cannot be extended on either side; the runs are listed in
  increasing order with a matching index between consecutive runs; and every
  mismatching index lies in one of them.
\<close>

theorem error_runs_maximal_ordered:
  "(\<forall>r \<in> set (error_runs typed target). is_run typed target r) \<and>
   sorted_wrt separated (error_runs typed target) \<and>
   (\<forall>i \<in> {0..<length typed}. mismatch typed target i \<longrightarrow> covered (error_runs typed target) i)"
  using error_runs_are_runs [of _ typed target] error_runs_separated [of typed target]
    error_runs_cover [of _ typed target]
  by auto

theorem error_runs_maximal_ordered_witness:
  "error_runs (js ''xbxxexx'') (js ''abcdefg'') = [[0, 1], [2, 4], [5, 7]] \<and>
   is_run (js ''xbxxexx'') (js ''abcdefg'') [0, 1] \<and>
   is_run (js ''xbxxexx'') (js ''abcdefg'') [2, 4] \<and>
   is_run (js ''xbxxexx'') (js ''abcdefg'') [5, 7] \<and>
   sorted_wrt separated [[0, 1], [2, 4], [5, 7]] \<and>
   covered [[0, 1], [2, 4], [5, 7]] 3"
proof -
  have e: "error_runs (js ''xbxxexx'') (js ''abcdefg'') = [[0, 1], [2, 4], [5, 7]]"
    by code_simp
  have m: "3 \<in> {0..<length (js ''xbxxexx'')} \<and> mismatch (js ''xbxxexx'') (js ''abcdefg'') 3"
    by code_simp
  from error_runs_maximal_ordered [of "js ''xbxxexx''" "js ''abcdefg''"] e m
  show ?thesis by auto
qed

section \<open>Paste\<close>

lemma replace_runs_skip:
  "replace_runs p r xs =
   takeWhile (\<lambda>y. \<not> p y) xs @ replace_runs p r (dropWhile (\<lambda>y. \<not> p y) xs)"
  by (induction xs) auto

lemma concat_runs_of: "concat (runs_of p s) = s"
  by (induction p s rule: runs_of.induct) auto

lemma replace_runs_rewrite: "replace_runs p r s = rewrite_runs p 1 r s"
proof (induction p s rule: runs_of.induct)
  case (1 p)
  show ?case by (simp add: rewrite_runs_def)
next
  case (2 p c cs)
  show ?case
  proof (cases "p c")
    case True
    then have eq: "(\<lambda>y. p y = p c) = p" by auto
    from 2 True show ?thesis
      by (simp add: rewrite_runs_def eq)
  next
    case False
    then have eq: "(\<lambda>y. p y = p c) = (\<lambda>y. \<not> p y)" by auto
    from 2 False show ?thesis
      using replace_runs_skip [of p r cs]
      by (simp add: rewrite_runs_def eq)
  qed
qed

lemma normalize_paste_described: "normalize_paste d = described_normalize d"
  by (simp add: normalize_paste_def described_normalize_def replace_runs_rewrite)

lemma rev_dropWhile_split:
  "d = rev (dropWhile P (rev d)) @ rev (takeWhile P (rev d))"
  by (metis rev_append rev_rev_ident takeWhile_dropWhile_id)

lemma trim_split:
  "s = takeWhile is_white_space s @ trim s @
       rev (takeWhile is_white_space (rev (dropWhile is_white_space s)))"
proof -
  have "s = takeWhile is_white_space s @ dropWhile is_white_space s"
    by simp
  also have "dropWhile is_white_space s =
      trim s @ rev (takeWhile is_white_space (rev (dropWhile is_white_space s)))"
    unfolding trim_def by (rule rev_dropWhile_split)
  finally show ?thesis .
qed

lemma trim_ends:
  assumes "trim s \<noteq> []"
  shows "\<not> is_white_space (hd (trim s)) \<and> \<not> is_white_space (last (trim s))"
proof -
  define d where "d = dropWhile is_white_space s"
  define e where "e = dropWhile is_white_space (rev d)"
  have t: "trim s = rev e" by (simp add: trim_def d_def e_def)
  with assms have ne: "e \<noteq> []" by simp
  then have "\<not> is_white_space (hd e)"
    unfolding e_def by (rule hd_dropWhile)
  then have l: "\<not> is_white_space (last (trim s))"
    using ne by (simp add: t last_rev)
  have "d = rev e @ rev (takeWhile is_white_space (rev d))"
    unfolding e_def by (rule rev_dropWhile_split)
  then have "hd d = hd (rev e)" using ne
    by (metis hd_append2 rev_is_Nil_conv)
  moreover have "d \<noteq> []" using ne e_def by auto
  then have "\<not> is_white_space (hd d)"
    unfolding d_def by (rule hd_dropWhile)
  ultimately show ?thesis using l by (simp add: t)
qed

text \<open>
  C2 (amended). For every string pasted while no TargetText exists, the paste handler
  replaces each run of spaces by one space, deletes tabs and carriage returns, replaces
  each run of one or more newlines by exactly two newlines (so a lone newline becomes
  two), and trims white space from both ends; the result, if non-empty, becomes the new
  TargetText, and the default paste is prevented.
\<close>

theorem onPaste_normalizes:
  assumes "\<not> truthy current"
    and "\<not> truthy (data (paste_target e) ''dontstealfocus'')"
    and "clipboardData e = Some d"
  shows "prevented (onPaste current e) \<and>
    content (onPaste current e) =
      (if described_normalize d = [] then current else Some (described_normalize d)) \<and>
    (\<exists>l r. rewrite_runs (\<lambda>c. c = LF) 1 [LF, LF]
              (delete_all CR (delete_all TAB (rewrite_runs (\<lambda>c. c = SP) 1 [SP] d))) =
            l @ described_normalize d @ r \<and>
        list_all is_white_space l \<and> list_all is_white_space r) \<and>
    (described_normalize d = [] \<or>
       \<not> is_white_space (hd (described_normalize d)) \<and>
       \<not> is_white_space (last (described_normalize d)))"
proof (intro conjI)
  show "prevented (onPaste current e)"
    using assms by (simp add: onPaste_def Let_def)
  show "content (onPaste current e) =
      (if described_normalize d = [] then current else Some (described_normalize d))"
    using assms by (simp add: onPaste_def Let_def normalize_paste_described)
  define x where "x = rewrite_runs (\<lambda>c. c = LF) 1 [LF, LF]
              (delete_all CR (delete_all TAB (rewrite_runs (\<lambda>c. c = SP) 1 [SP] d)))"
  have dn: "described_normalize d = trim x"
    by (simp add: described_normalize_def x_def)
  have "x = takeWhile is_white_space x @ trim x @
       rev (takeWhile is_white_space (rev (dropWhile is_white_space x)))"
    by (rule trim_split)
  moreover have "list_all is_white_space (takeWhile is_white_space x)"
    by (simp add: list_all_iff) (meson set_takeWhileD)
  moreover have
    "list_all is_white_space (rev (takeWhile is_white_space (rev (dropWhile is_white_space x))))"
    by (simp add: list_all_iff) (meson set_takeWhileD)
  ultimately show "\<exists>l r. x = l @ described_normalize d @ r \<and>
        list_all is_white_space l \<and> list_all is_white_space r"
    unfolding dn by blast
  show "described_normalize d = [] \<or>
       \<not> is_white_space (hd (described_normalize d)) \<and>
       \<not> is_white_space (last (described_normalize d))"
    unfolding dn using trim_ends [of x] by blast
qed

theorem onPaste_normalizes_witness:
  "\<not> truthy None \<and>
   content (onPaste None (plain_paste (js ''Hello   world'' @ [LF, LF, LF, LF] @ js ''bye''))) =
     Some (js ''Hello world'' @ [LF, LF] @ js ''bye'') \<and>
   content (onPaste None (plain_paste (js ''a'' @ [LF] @ js ''b''))) =
     Some (js ''a'' @ [LF, LF] @ js ''b'')"
proof -
  let ?d = "js ''Hello   world'' @ [LF, LF, LF, LF] @ js ''bye''"
  let ?d2 = "js ''a'' @ [LF] @ js ''b''"
  have t: "\<not> truthy None" by (simp add: truthy_def)
  have f: "\<not> truthy (data (paste_target (plain_paste x)) ''dontstealfocus'')" for x
    by (simp add: truthy_def data_def plain_paste_def)
  have c: "clipboardData (plain_paste x) = Some x" for x
    by (simp add: plain_paste_def)
  have n: "described_normalize ?d = js ''Hello world'' @ [LF, LF] @ js ''bye''"
    by code_simp
  have n2: "described_normalize ?d2 = js ''a'' @ [LF, LF] @ js ''b''"
    by code_simp
  have ne: "js ''Hello world'' @ [LF, LF] @ js ''bye'' \<noteq> []" "js ''a'' @ [LF, LF] @ js ''b'' \<noteq> []"
    by (simp_all add: js_def)
  from onPaste_normalizes [OF t f c, of ?d] onPaste_normalizes [OF t f c, of ?d2] n n2 ne t
  show ?thesis by simp
qed

text \<open>
  C2 as stated fails: pasting \<open>a\<close>, newline, \<open>b\<close> yields a TargetText with two newlines,
  where the claim keeps the lone newline.
\<close>

theorem onPaste_lone_newline_counterexample:
  "content (onPaste None (plain_paste (js ''a'' @ [LF] @ js ''b''))) =
     Some (js ''a'' @ [LF, LF] @ js ''b'') \<and>
   claimed_normalize (js ''a'' @ [LF] @ js ''b'') = js ''a'' @ [LF] @ js ''b'' \<and>
   content (onPaste None (plain_paste (js ''a'' @ [LF] @ js ''b''))) \<noteq>
     Some (claimed_normalize (js ''a'' @ [LF] @ js ''b''))"
  by code_simp

text \<open>
  C7. Paste normalization is not idempotent on the code: tabs are deleted after the runs
  of spaces were collapsed, so a space, a tab and a space leave two adjacent spaces, which
  a second normalization collapses.
\<close>

theorem normalize_paste_twice_differs:
  "normalize_paste (js ''a '' @ [TAB] @ js '' b'') = js ''a  b'' \<and>
   normalize_paste (normalize_paste (js ''a '' @ [TAB] @ js '' b'')) = js ''a b'' \<and>
   normalize_paste (normalize_paste (js ''a '' @ [TAB] @ js '' b'')) \<noteq>
     normalize_paste (js ''a '' @ [TAB] @ js '' b'')"
  by code_simp

section \<open>Position mapping and correction engines\<close>

lemma walk_position_miss:
  "currentNode \<notin> fst ` set ws \<Longrightarrow>
   walk_position ws currentNode offset position =
     position + int (length (concat (map snd ws)))"
  by (induction ws arbitrary: position) auto

lemma text_nodes_content:
  "concat (map snd (text_nodes r n)) = textContent n"
  "concat (map snd (text_nodes_from r i cs)) = concat (map textContent cs)"
  by (induction r n and r i cs rule: text_nodes_text_nodes_from.induct) auto

text \<open>
  C1 (amended). When the node is not among the text descendants of the root,
  \<open>getTextPosition\<close> returns the accumulated length of all those text descendants: for
  an element root the length of its text content, the position at the end of the text,
  whatever the offset; it is 0 only when the root holds no text.
\<close>

theorem getTextPosition_not_found:
  assumes "currentNode \<notin> fst ` set (tree_walker d editor)"
  shows "getTextPosition d editor currentNode offset =
           int (length (concat (map snd (tree_walker d editor)))) \<and>
         (\<forall>cs. node_at d editor = Some (Element cs) \<longrightarrow>
            getTextPosition d editor currentNode offset =
              int (length (textContent (Element cs))))"
proof -
  have a: "getTextPosition d editor currentNode offset =
           int (length (concat (map snd (tree_walker d editor))))"
    using assms by (simp add: getTextPosition_def walk_position_miss)
  have "concat (map snd (tree_walker d editor)) = textContent (Element cs)"
    if "node_at d editor = Some (Element cs)" for cs
    using that by (simp add: tree_walker_def text_nodes_content)
  with a show ?thesis by simp
qed

theorem getTextPosition_not_found_witness:
  "getTextPosition (Element [Text (js ''ab''), Element [Text (js ''cd'')], Element []]) []
     [2] 1 = 4"
proof -
  let ?d = "Element [Text (js ''ab''), Element [Text (js ''cd'')], Element []]"
  have m: "[2] \<notin> fst ` set (tree_walker ?d [])"
    by code_simp
  have l: "int (length (concat (map snd (tree_walker ?d [])))) = 4"
    by code_simp
  from getTextPosition_not_found [OF m, of 1] l show ?thesis by simp
qed

text \<open>
  C1 as stated fails: with the text \<open>ab\<close> followed by an empty element under the root,
  the position of the element (not a text node, so never found) is 2, not 0.
\<close>

theorem getTextPosition_not_found_counterexample:
  "[1] \<notin> fst ` set (tree_walker (Element [Text (js ''ab''), Element []]) []) \<and>
   getTextPosition (Element [Text (js ''ab''), Element []]) [] [1] 1 = 2 \<and>
   getTextPosition (Element [Text (js ''ab''), Element []]) [] [1] 1 \<noteq> 0"
  by code_simp

lemma node_at_update_at:
  "node_at d p = Some n \<Longrightarrow> node_at (update_at d p n') p = Some n'"
  by (induction d p arbitrary: n rule: node_at.induct) (auto split: if_splits)

lemma textContent_set_textContent: "textContent (set_textContent n s) = s"
  by (cases n) auto

lemma slice_prefix: "slice s 0 (int k) = take k s"
  by (simp add: slice_def rel_index_def Let_def min_def)

lemma slice_from_suffix: "slice_from s (int k) = drop k s"
  by (simp add: slice_from_def rel_index_def min_def)

lemma set_caret_Inr:
  "set_caret st node offset = Inr st' \<Longrightarrow>
   0 \<le> offset \<and> st' = st\<lparr>selection := Ranges [(node, nat offset)]\<rparr>"
  by (auto simp: set_caret_def split: option.splits if_splits)

text \<open>
  C10. Whenever \<open>handleIgnorePunctuation\<close> returns true for a node of the document, the
  text content of that node is the old one with a single unit inserted at the caret
  index: the unit of the current target line at that index, which is not alphanumeric.
  The length grows by one, the text before and after the index is kept, the caret is
  just after the inserted unit, and TargetText and the input surface reference are
  unchanged.
\<close>

theorem handleIgnorePunctuation_inserts:
  assumes ret: "handleIgnorePunctuation pressed st = Inr (True, st')"
    and sel: "selection st = Ranges ((startContainer, startOffset) # rs)"
    and node: "node_at (doc st) (punctuation_node st startContainer) = Some n"
  shows "\<exists>letter.
      char_at (getCurrentLine (doc st) (the (contentToCopy st))
                 (punctuation_node st startContainer))
              (int (punctuation_index st startContainer startOffset)) = Some letter \<and>
      \<not> is_alphanumeric letter \<and>
      textContent_at (doc st') (punctuation_node st startContainer) =
        Some (take (punctuation_index st startContainer startOffset) (textContent n) @
              [letter] @
              drop (punctuation_index st startContainer startOffset) (textContent n)) \<and>
      map_option length (textContent_at (doc st') (punctuation_node st startContainer)) =
        Some (length (textContent n) + 1) \<and>
      selection st' =
        Ranges [(punctuation_node st startContainer,
                 min (punctuation_index st startContainer startOffset + 1)
                     (length (textContent n) + 1))] \<and>
      contentToCopy st' = contentToCopy st \<and> writer st' = writer st"
proof -
  define nd where "nd = punctuation_node st startContainer"
  define index where "index = punctuation_index st startContainer startOffset"
  define line where "line = getCurrentLine (doc st) (the (contentToCopy st)) nd"
  from ret sel obtain letter where
    letter: "char_at line (int index) = Some letter" "\<not> is_alphanumeric letter"
    by (auto simp: handleIgnorePunctuation_def Let_def nd_def index_def line_def
        split: if_splits option.splits)
  define new where "new = take index (textContent n) @ [letter] @ drop index (textContent n)"
  define st1 where "st1 = st\<lparr>doc := update_at (doc st) nd (set_textContent n new)\<rparr>"
  from ret sel node letter have
    "(case set_caret st1 nd (min (int index + 1) (int (length new))) of
        Inl err \<Rightarrow> Inl err | Inr st'' \<Rightarrow> Inr (True, st'')) = Inr (True, st')"
    by (auto simp: handleIgnorePunctuation_def Let_def nd_def [symmetric] index_def [symmetric]
        line_def [symmetric] slice_prefix slice_from_suffix new_def st1_def
        split: if_splits)
  then have "set_caret st1 nd (min (int index + 1) (int (length new))) = Inr st'"
    by (auto split: sum.splits)
  from set_caret_Inr [OF this] have
    st': "st' = st1\<lparr>selection := Ranges [(nd, nat (min (int index + 1) (int (length new))))]\<rparr>"
    by simp
  have len: "length new = length (textContent n) + 1"
    by (simp add: new_def)
  have tc: "textContent_at (doc st') nd = Some new"
    using node
    by (simp add: st' st1_def textContent_at_def nd_def [symmetric] node_at_update_at
        textContent_set_textContent)
  have caret: "nat (min (int index + 1) (int (length new))) =
      min (index + 1) (length (textContent n) + 1)"
    unfolding len by (cases "index \<le> length (textContent n)") auto
  show ?thesis
    unfolding nd_def [symmetric] index_def [symmetric] line_def [symmetric]
    using letter tc len caret
    by (intro exI [of _ letter]) (simp add: st' st1_def new_def)
qed

lemma node_at_append:
  "node_at d (p @ q) = (case node_at d p of None \<Rightarrow> None | Some n \<Rightarrow> node_at n q)"
  by (induction d p rule: node_at.induct) auto

lemma find_text_child_Some:
  "find_text_child cs i0 off start = Some (i, d, currentOffset) \<Longrightarrow>
   i0 \<le> i \<and> i - i0 < length cs \<and> cs ! (i - i0) = Text d \<and>
   start \<le> currentOffset + int (length d)"
proof (induction cs arbitrary: i0 off)
  case Nil
  then show ?case by simp
next
  case (Cons c cs)
  show ?case
  proof (cases "find_text_child (c # cs) i0 off start =
      find_text_child cs (Suc i0) (off + int (length (textContent c))) start")
    case True
    with Cons.prems have
      "find_text_child cs (Suc i0) (off + int (length (textContent c))) start =
         Some (i, d, currentOffset)" by simp
    from Cons.IH [OF this] show ?thesis
      by (auto simp: Suc_diff_le diff_Suc elim: less_SucE split: nat.splits)
  next
    case False
    with Cons.prems show ?thesis
      by (cases c) (auto simp: Let_def split: if_splits)
  qed
qed

lemma find_text_child_all_text:
  "find_text_child cs i0 off start = Some (i, d, currentOffset) \<Longrightarrow> off \<le> start \<Longrightarrow>
   list_all (\<lambda>c. \<exists>t. c = Text t) cs \<Longrightarrow> currentOffset \<le> start"
proof (induction cs arbitrary: i0 off)
  case Nil
  then show ?case by simp
next
  case (Cons c cs)
  from Cons.prems(3) obtain t where c: "c = Text t" and rest: "list_all (\<lambda>c. \<exists>t. c = Text t) cs"
    by auto
  show ?case
  proof (cases "start \<le> off + int (length t)")
    case True
    with Cons.prems(1,2) c show ?thesis by simp
  next
    case False
    with Cons.prems(1) c have
      "find_text_child cs (Suc i0) (off + int (length t)) start = Some (i, d, currentOffset)"
      by simp
    from Cons.IH [OF this _ rest] False show ?thesis by simp
  qed
qed

lemma slice_take: "0 \<le> a \<Longrightarrow> slice s 0 a = take (nat a) s"
  by (simp add: slice_def rel_index_def Let_def min_def)

text \<open>
  The correction where the loop settles on the text node that contains the start of the
  entered word (\<open>currentOffset \<le> start\<close>, as is the case when every child of the input
  surface before that node is a text node). That node then reads: the text before the
  word, the target word, one space exactly when \<open>addSpace\<close> holds and the end of the
  target word is before the end of TargetText, and the text after; the caret is right
  after the word and that space. When the target word is the last of TargetText, no
  space is added and the caret is right after the word.
\<close>

lemma handleAutocorrect_trailing_space:
  assumes ret: "handleAutocorrect pressed st True = Inr (True, st')"
    and sel: "selection st = Ranges ((startContainer, startOffset) # rs)"
    and nd: "autocorrect_node st startContainer = Some node"
    and tgt: "contentToCopy st = Some target"
    and pos: "currentPosition = getTextPosition (doc st) (writer st) node (int startOffset)"
    and start: "start = getPreviousSpace (fullText st) (Some currentPosition)"
    and "end": "wend = getNextSpace target currentPosition"
    and found: "find_text_child (surface_children st) 0 0 start = Some (i, d, currentOffset)"
    and inside: "currentOffset \<le> start"
  shows "textContent_at (doc st') (writer st @ [i]) =
           Some (take (nat (start - currentOffset)) d @ slice target start wend @
                 (if wend < int (length target) then [SP] else []) @
                 slice_from d (wend - currentOffset)) \<and>
         selection st' =
           Ranges [(writer st @ [i],
                    length (take (nat (start - currentOffset)) d @ slice target start wend @
                            (if wend < int (length target) then [SP] else [])))] \<and>
         (wend = int (length target) \<longrightarrow>
            textContent_at (doc st') (writer st @ [i]) =
              Some (take (nat (start - currentOffset)) d @ slice target start wend @
                    slice_from d (wend - currentOffset)) \<and>
            selection st' =
              Ranges [(writer st @ [i],
                       length (take (nat (start - currentOffset)) d @ slice target start wend))])"
proof -
  define sp where "sp = (if wend < int (length target) then [SP] else [])"
  define before where "before = take (nat (start - currentOffset)) d"
  define new where
    "new = before @ slice target start wend @ sp @ slice_from d (wend - currentOffset)"
  define newPosition where
    "newPosition = start - currentOffset + int (length (slice target start wend)) +
       (if wend < int (length target) then 1 else 0)"
  define st1 where "st1 = st\<lparr>doc := update_at (doc st) (writer st @ [i]) (Text new)\<rparr>"
  from find_text_child_Some [OF found] have
    child: "i < length (surface_children st)" "surface_children st ! i = Text d"
      and reach: "start \<le> currentOffset + int (length d)"
    by auto
  have bl: "int (length before) = start - currentOffset"
    using inside reach unfolding before_def length_take by linarith
  have before_slice: "slice d 0 (start - currentOffset) = before"
    using inside by (simp add: before_def slice_take)
  from ret sel nd tgt have
    "(case set_caret st1 (writer st @ [i]) (min newPosition (int (length new))) of
        Inl err \<Rightarrow> Inl err | Inr st'' \<Rightarrow> Inr (True, st'')) = Inr (True, st')"
    using found
    by (auto simp: handleAutocorrect_def Let_def pos [symmetric] start [symmetric]
        "end" [symmetric] before_slice new_def sp_def newPosition_def st1_def truthy_def
        split: if_splits)
  then have "set_caret st1 (writer st @ [i]) (min newPosition (int (length new))) = Inr st'"
    by (auto split: sum.splits)
  from set_caret_Inr [OF this] have
    st': "st' = st1\<lparr>selection :=
        Ranges [(writer st @ [i], nat (min newPosition (int (length new))))]\<rparr>"
    by simp
  have np: "newPosition = int (length (before @ slice target start wend @ sp))"
    using bl by (simp add: newPosition_def sp_def)
  then have caret: "nat (min newPosition (int (length new))) =
      length (before @ slice target start wend @ sp)"
    by (simp add: new_def)
  obtain w where w: "node_at (doc st) (writer st) = Some w" "childNodes w = surface_children st"
    using child by (auto simp: surface_children_def split: option.splits)
  with child have "node_at w [i] = Some (Text d)"
    by (cases w) auto
  with w have "node_at (doc st) (writer st @ [i]) = Some (Text d)"
    by (simp add: node_at_append)
  then have tc: "textContent_at (doc st') (writer st @ [i]) = Some new"
    by (simp add: st' st1_def textContent_at_def node_at_update_at)
  show ?thesis
    using tc caret
    by (auto simp: st' new_def sp_def before_def)
qed

lemma handleAutocorrect_trailing_space_example:
  "handleAutocorrect [SP] (surface (Some (js ''the fox'')) [Text (js ''the fxo'')] [0, 0] 7) True =
     Inr (True, surface (Some (js ''the fox'')) [Text (js ''the fox'')] [0, 0] 7) \<and>
   getNextSpace (js ''the fox'') 7 = int (length (js ''the fox'')) \<and>
   textContent_at (doc (surface (Some (js ''the fox'')) [Text (js ''the fox'')] [0, 0] 7)) [0, 0] =
     Some (js ''the fox'') \<and>
   selection (surface (Some (js ''the fox'')) [Text (js ''the fox'')] [0, 0] 7) =
     Ranges [([0, 0], 7)]"
proof -
  let ?st = "surface (Some (js ''the fox'')) [Text (js ''the fxo'')] [0, 0] 7"
  let ?st' = "surface (Some (js ''the fox'')) [Text (js ''the fox'')] [0, 0] 7"
  have ret: "handleAutocorrect [SP] ?st True = Inr (True, ?st')"
    by code_simp
  have sel: "selection ?st = Ranges (([0, 0], 7) # [])"
    by (simp add: surface_def)
  have nd: "autocorrect_node ?st [0, 0] = Some [0, 0]"
    by code_simp
  have tgt: "contentToCopy ?st = Some (js ''the fox'')"
    by (simp add: surface_def)
  have pos: "7 = getTextPosition (doc ?st) (writer ?st) [0, 0] (int 7)"
    by code_simp
  have start: "4 = getPreviousSpace (fullText ?st) (Some 7)"
    by code_simp
  have wend: "7 = getNextSpace (js ''the fox'') 7"
    by code_simp
  have found: "find_text_child (surface_children ?st) 0 0 4 = Some (0, js ''the fxo'', 0)"
    by code_simp
  have w: "writer ?st @ [0] = [0, 0]"
    by (simp add: surface_def)
  have l: "int (length (js ''the fox'')) = 7" "length (js ''the fxo'') = 7"
    by (simp_all add: js_def)
  have parts: "take 4 (js ''the fxo'') = js ''the ''" "slice (js ''the fox'') 4 7 = js ''fox''"
    "slice_from (js ''the fxo'') 7 = []"
    by code_simp+
  from handleAutocorrect_trailing_space [OF ret sel nd tgt pos start wend found] ret wend w l
  show ?thesis by (simp add: parts) (simp add: js_def)
qed

text \<open>
  C9. With \<open>addSpace = true\<close>, a correction of the last word of TargetText should add no
  space and leave the caret directly after the corrected word. The code does not when
  an element child with text precedes the text node its loop settles on. With
  TargetText \<open>the quick\<close>, the input surface holding an element with the text
  \<open>the qui\<close> followed by the text node \<open>kc\<close>, and the caret at offset 2 of that text
  node, the next-space lookup gives the length of the target and the call returns true:
  the loop skips the element, rewrites the text node, which begins at offset 7, past the
  word start 4, to \<open>quick\<close> and sets the caret to \<open>4 - 7 + 5 = 2\<close>, inside the word and
  not after its five units; the surface then reads \<open>the quiquick\<close>.
\<close>

theorem handleAutocorrect_caret_inside_word:
  "getNextSpace (js ''the quick'') 9 = int (length (js ''the quick'')) \<and>
   find_text_child [Element [Text (js ''the qui'')], Text (js ''kc'')] 0 0 4 =
     Some (1, js ''kc'', 7) \<and>
   handleAutocorrect [SP]
     (surface (Some (js ''the quick'')) [Element [Text (js ''the qui'')], Text (js ''kc'')]
        [0, 1] 2) True =
     Inr (True,
       surface (Some (js ''the quick'')) [Element [Text (js ''the qui'')], Text (js ''quick'')]
         [0, 1] 2) \<and>
   fullText
     (surface (Some (js ''the quick'')) [Element [Text (js ''the qui'')], Text (js ''quick'')]
        [0, 1] 2) = js ''the quiquick'' \<and>
   selection
     (surface (Some (js ''the quick'')) [Element [Text (js ''the qui'')], Text (js ''quick'')]
        [0, 1] 2) \<noteq> Ranges [([0, 1], length (js ''quick''))]"
  by code_simp

text \<open>
  C3. With TargetText \<open>the quick fox\<close>, the input surface holding the single text node
  \<open>teh\<close> and the caret at offset 3 of it, \<open>handleAutocorrect\<close> on the space key
  rewrites the node to \<open>the\<close> plus one space, puts the caret at offset 4, just after the
  space, and returns true; the key-down handler with autocorrect enabled reaches it
  (whether or not punctuation skipping is enabled) and prevents the default action of
  the key.
\<close>

theorem handleAutocorrect_teh_scenario:
  "handleAutocorrect [SP]
     (surface (Some (js ''the quick fox'')) [Text (js ''teh'')] [0, 0] 3) True =
     Inr (True, surface (Some (js ''the quick fox'')) [Text (js ''the '')] [0, 0] 4) \<and>
   onKeydown \<lparr>autocorrect = True, ignore_punctuation = ip\<rparr>
     (surface (Some (js ''the quick fox'')) [Text (js ''teh'')] [0, 0] 3) (key_press [SP]) =
     Some (Inr (True, surface (Some (js ''the quick fox'')) [Text (js ''the '')] [0, 0] 4)) \<and>
   textContent_at
     (doc (surface (Some (js ''the quick fox'')) [Text (js ''the '')] [0, 0] 4)) [0] =
     Some (js ''the '')"
proof -
  let ?st = "surface (Some (js ''the quick fox'')) [Text (js ''teh'')] [0, 0] 3"
  let ?st' = "surface (Some (js ''the quick fox'')) [Text (js ''the '')] [0, 0] 4"
  have a: "handleAutocorrect [SP] ?st True = Inr (True, ?st')"
    by code_simp
  have p: "handleIgnorePunctuation [SP] ?st = Inr (False, ?st)"
    by (simp add: handleIgnorePunctuation_def)
  have w: "wouldCreateConsecutiveSpaces ?st = Inr False"
    by code_simp
  have f: "fullText ?st \<noteq> []"
    by code_simp
  have t: "truthy (contentToCopy ?st)"
    by code_simp
  have e: "[SP] \<noteq> js ''Enter''"
    by (simp add: js_def)
  have k: "onKeydown \<lparr>autocorrect = True, ignore_punctuation = ip\<rparr> ?st (key_press [SP]) =
      Some (Inr (True, ?st'))"
    using a p w f t e
    by (simp add: onKeydown_def key_press_def truthy_def data_def)
  have c: "textContent_at (doc ?st') [0] = Some (js ''the '')"
    by code_simp
  from a k c show ?thesis by simp
qed

theorem handleAutocorrect_teh_scenario_witness:
  "map_option (map_sum id fst)
     (onKeydown \<lparr>autocorrect = True, ignore_punctuation = True\<rparr>
        (surface (Some (js ''the quick fox'')) [Text (js ''teh'')] [0, 0] 3) (key_press [SP])) =
   Some (Inr True)"
  using handleAutocorrect_teh_scenario [of True] by simp

theorem handleIgnorePunctuation_inserts_witness:
  "handleIgnorePunctuation (js '','') (surface (Some (js ''a,b'')) [Text (js ''a'')] [0, 0] 1) =
     Inr (True, surface (Some (js ''a,b'')) [Text (js ''a,'')] [0, 0] 2) \<and>
   textContent_at (doc (surface (Some (js ''a,b'')) [Text (js ''a,'')] [0, 0] 2)) [0, 0] =
     Some (js ''a,'') \<and>
   selection (surface (Some (js ''a,b'')) [Text (js ''a,'')] [0, 0] 2) = Ranges [([0, 0], 2)] \<and>
   contentToCopy (surface (Some (js ''a,b'')) [Text (js ''a,'')] [0, 0] 2) = Some (js ''a,b'')"
proof -
  let ?st = "surface (Some (js ''a,b'')) [Text (js ''a'')] [0, 0] 1"
  let ?st' = "surface (Some (js ''a,b'')) [Text (js ''a,'')] [0, 0] 2"
  have ret: "handleIgnorePunctuation (js '','') ?st = Inr (True, ?st')"
    by code_simp
  have sel: "selection ?st = Ranges (([0, 0], 1) # [])"
    by (simp add: surface_def)
  have pn: "punctuation_node ?st [0, 0] = [0, 0]"
    by code_simp
  have node: "node_at (doc ?st) (punctuation_node ?st [0, 0]) = Some (Text (js ''a''))"
    by code_simp
  have pidx: "punctuation_index ?st [0, 0] 1 = 1"
    by code_simp
  have line: "char_at (getCurrentLine (doc ?st) (the (contentToCopy ?st)) [0, 0]) 1 =
      Some 0x2C"
    by code_simp
  have a: "js ''a'' = [0x61]" "js ''a,'' = [0x61, 0x2C]"
    by (simp_all add: js_def)
  from handleIgnorePunctuation_inserts [OF ret sel node] ret
  show ?thesis
    unfolding pn pidx using line a
    by (auto simp: surface_def)
qed

section \<open>Click to jump\<close>

text \<open>The markup of the scenario: the third word carries the index 4.\<close>

lemma wrapWordsInSpans_scenario:
  \<open>wrapWordsInSpans (js ''one two three four'') =
     js ''<span class="word" data-offset="0">one</span> '' @
     js ''<span class="word" data-offset="2">two</span> '' @
     js ''<span class="word" data-offset="4">three</span> '' @
     js ''<span class="word" data-offset="6">four</span>''\<close>
  by code_simp

lemma concat_split_tokens: "concat (split_tokens cur s) = cur @ s"
  by (induction cur s rule: split_tokens.induct) auto

lemma concat_split_whitespace: "concat (split_whitespace s) = s"
  by (simp add: split_whitespace_def concat_split_tokens)

lemma word_position_loop_sum:
  "i \<le> n \<Longrightarrow> n \<le> length words \<Longrightarrow>
   word_position_loop words i (int n) p =
     Inr (p + length (concat (take (n - i) (drop i words))))"
proof (induction "n - i" arbitrary: i p)
  case 0
  then show ?case by (simp add: word_position_loop.simps)
next
  case (Suc k)
  then have lt: "i < n" "i < length words" by auto
  from Suc have k: "k = n - Suc i" by simp
  have step: "word_position_loop words i (int n) p =
      word_position_loop words (Suc i) (int n) (p + length (words ! i))"
    using lt by (subst word_position_loop.simps) simp
  have "take (n - i) (drop i words) = words ! i # take (n - Suc i) (drop (Suc i) words)"
    using lt by (metis Cons_nth_drop_Suc Suc_diff_Suc take_Suc_Cons)
  with Suc.hyps(1) [OF k] Suc.prems lt step show ?case by simp
qed

lemma digit_facts:
  assumes "d < 10"
  shows "is_digit (digit d)" "digit_value (digit d) = d" "\<not> is_white_space (digit d)"
    "digit d \<noteq> 0x2D" "digit d \<noteq> 0x2B"
proof -
  from assms have "d = 0 \<or> d = 1 \<or> d = 2 \<or> d = 3 \<or> d = 4 \<or> d = 5 \<or> d = 6 \<or> d = 7 \<or>
      d = 8 \<or> d = 9"
    by arith
  then show "is_digit (digit d)" "digit_value (digit d) = d" "\<not> is_white_space (digit d)"
    "digit d \<noteq> 0x2D" "digit d \<noteq> 0x2B"
    by (auto simp: digit_def is_digit_def digit_value_def is_white_space_def)
qed

lemma number_to_string_digits:
  "number_to_string n \<noteq> [] \<and> list_all is_digit (number_to_string n) \<and>
   foldl (\<lambda>a c. 10 * a + digit_value c) 0 (number_to_string n) = n \<and>
   (\<exists>d < 10. hd (number_to_string n) = digit d)"
proof (induction n rule: number_to_string.induct)
  case (1 n)
  show ?case
  proof (cases "n < 10")
    case True
    then show ?thesis
      by (subst (1 2 3 4) number_to_string.simps) (auto simp: digit_facts)
  next
    case False
    with 1 have ih: "number_to_string (n div 10) \<noteq> []"
      "list_all is_digit (number_to_string (n div 10))"
      "foldl (\<lambda>a c. 10 * a + digit_value c) 0 (number_to_string (n div 10)) = n div 10"
      "\<exists>d < 10. hd (number_to_string (n div 10)) = digit d"
      by auto
    have m: "n mod 10 < 10" by simp
    from False ih m show ?thesis
      by (subst (1 2 3 4) number_to_string.simps) (auto simp: digit_facts)
  qed
qed

lemma parseInt_number_to_string: "parseInt (number_to_string n) = Some (int n)"
proof -
  define ds where "ds = number_to_string n"
  from number_to_string_digits [of n] obtain d where
    ne: "ds \<noteq> []" and all: "list_all is_digit ds"
    and val: "foldl (\<lambda>a c. 10 * a + digit_value c) 0 ds = n"
    and hd: "d < 10" "hd ds = digit d"
    unfolding ds_def by blast
  have ws: "dropWhile is_white_space ds = ds"
    using hd digit_facts(3) [of d] by (simp add: dropWhile_eq_self_iff)
  have sign: "hd ds \<noteq> 0x2D" "hd ds \<noteq> 0x2B"
    using hd digit_facts(4,5) [of d] by simp_all
  have tw: "takeWhile is_digit ds = ds"
    using all by (simp add: takeWhile_eq_all_conv list_all_iff)
  show ?thesis
    unfolding ds_def [symmetric] parseInt_def
    using ne val sign by (simp add: Let_def ws tw)
qed

lemma token_start:
  assumes "i < length ws"
  shows "take (length (ws ! i)) (drop (length (concat (take i ws))) (concat ws)) = ws ! i"
proof -
  have "ws = take i ws @ ws ! i # drop (Suc i) ws"
    using assms by (rule id_take_nth_drop)
  then have "concat ws = concat (take i ws) @ ws ! i @ concat (drop (Suc i) ws)"
    by (metis concat.simps(2) concat_append)
  then show ?thesis by simp
qed

text \<open>
  C8. Splitting a target on runs of white space, the runs kept as pieces, loses no unit:
  the pieces concatenate to the target. For a word element that carries the index \<open>i\<close> of a
  piece, \<open>getWordStartPosition\<close> returns the sum of the lengths of the first \<open>i\<close>
  pieces, and piece \<open>i\<close> stands in the target at exactly that offset. Clicking the
  rendered third word of \<open>one two three four\<close> leaves the single text \<open>one two \<close>
  (with its final space) on the input surface, whatever was typed before, with the
  caret at its end, and prevents the default action.
\<close>

theorem word_start_position:
  "concat (split_whitespace t) = t \<and>
   (\<forall>i el. i < length (split_whitespace t) \<longrightarrow>
      data el ''offset'' = Some (number_to_string i) \<longrightarrow>
      getWordStartPosition t el =
        Inr (sum_list (map length (take i (split_whitespace t)))) \<and>
      take (length (split_whitespace t ! i))
        (drop (sum_list (map length (take i (split_whitespace t)))) t) =
        split_whitespace t ! i) \<and>
   onClick (surface (Some (js ''one two three four'')) typed container offset)
     (rendered_words (js ''one two three four'') ! 2) =
     Some (Inr (True, surface (Some (js ''one two three four'')) [Text (js ''one two '')] [0] 1))"
proof (intro conjI allI impI)
  show "concat (split_whitespace t) = t"
    by (rule concat_split_whitespace)
next
  fix i el
  assume i: "i < length (split_whitespace t)"
    and el: "data el ''offset'' = Some (number_to_string i)"
  have ne: "number_to_string i \<noteq> []"
    using number_to_string_digits [of i] by simp
  have "word_position_loop (split_whitespace t) 0 (int i) 0 =
      Inr (0 + length (concat (take (i - 0) (drop 0 (split_whitespace t)))))"
    using i by (intro word_position_loop_sum) simp_all
  then show "getWordStartPosition t el =
      Inr (sum_list (map length (take i (split_whitespace t))))"
    using el ne
    by (simp add: getWordStartPosition_def Let_def parseInt_number_to_string length_concat)
  show "take (length (split_whitespace t ! i))
        (drop (sum_list (map length (take i (split_whitespace t)))) t) =
        split_whitespace t ! i"
    using token_start [OF i] by (simp add: concat_split_whitespace length_concat)
next
  let ?t = "js ''one two three four''"
  have el: "rendered_words ?t ! 2 = word_element 4"
    by code_simp
  have w: "''word'' \<in> set (classList (word_element 4))"
    by (simp add: word_element_def)
  have pos: "getWordStartPosition ?t (word_element 4) = Inr 8"
    by code_simp
  have html: "set_innerHTML (substring ?t 0 (int 8)) = Some [Text (js ''one two '')]"
    by code_simp
  have t: "truthy (Some ?t)"
    by code_simp
  show "onClick (surface (Some ?t) typed container offset) (rendered_words ?t ! 2) =
     Some (Inr (True, surface (Some ?t) [Text (js ''one two '')] [0] 1))"
    unfolding el
    using w pos html t
    by (simp add: onClick_def surface_def caret_to_end_def surface_children_def Let_def)
qed

theorem word_start_position_witness:
  "getWordStartPosition (js ''one two three four'') (word_element 4) = Inr 8 \<and>
   split_whitespace (js ''one two three four'') ! 4 = js ''three'' \<and>
   take 5 (drop 8 (js ''one two three four'')) = js ''three''"
proof -
  let ?t = "js ''one two three four''"
  have i: "4 < length (split_whitespace ?t)"
    by code_simp
  have el: "data (word_element 4) ''offset'' = Some (number_to_string 4)"
    by (simp add: word_element_def data_def)
  have s: "sum_list (map length (take 4 (split_whitespace ?t))) = 8"
    by code_simp
  have tok: "split_whitespace ?t ! 4 = js ''three''"
    by code_simp
  have l: "length (js ''three'') = 5"
    by (simp add: js_def)
  from word_start_position [of ?t typed container offset] i el
  have "getWordStartPosition ?t (word_element 4) =
        Inr (sum_list (map length (take 4 (split_whitespace ?t)))) \<and>
      take (length (split_whitespace ?t ! 4))
        (drop (sum_list (map length (take 4 (split_whitespace ?t)))) ?t) =
        split_whitespace ?t ! 4"
    by blast
  then show ?thesis
    unfolding s tok l by (simp add: tok)
qed

end
